theory Spec2Isabelle
  imports Complex_Main "HOL-Library.Sublist" "HOL-Library.AList"
begin

section \<open>JavaScript strings\<close>

text \<open>
  A JavaScript string is a sequence of UTF-16 code units, and the regular expressions of
  the source (none has the \<open>u\<close> flag) work on code units. A code unit is a natural
  number; \<open>str\<close> turns an ASCII literal into its code units.
\<close>

type_synonym jschar = nat
type_synonym jsstring = "jschar list"

definition str :: "string \<Rightarrow> jsstring" where
  "str s = map of_char s"

text \<open>The character classes \<open>[a-zA-Z]\<close>, \<open>\d\<close>, \<open>\w\<close> and \<open>\s\<close>.\<close>

definition isLetter :: "jschar \<Rightarrow> bool" where
  "isLetter c = ((65 \<le> c \<and> c \<le> 90) \<or> (97 \<le> c \<and> c \<le> 122))"

definition isDigit :: "jschar \<Rightarrow> bool" where
  "isDigit c = (48 \<le> c \<and> c \<le> 57)"

definition isWord :: "jschar \<Rightarrow> bool" where
  "isWord c = (isLetter c \<or> isDigit c \<or> c = 95)"

text \<open>
  \<open>\s\<close> and \<open>trim\<close> use the same set: TAB, LF, VT, FF, CR, SPACE, U+00A0, U+1680,
  U+2000..U+200A, U+2028, U+2029, U+202F, U+205F, U+3000, U+FEFF.
\<close>

definition isSpace :: "jschar \<Rightarrow> bool" where
  "isSpace c = (c = 9 \<or> c = 10 \<or> c = 11 \<or> c = 12 \<or> c = 13 \<or> c = 32 \<or> c = 160 \<or>
     c = 5760 \<or> (8192 \<le> c \<and> c \<le> 8202) \<or> c = 8232 \<or> c = 8233 \<or> c = 8239 \<or>
     c = 8287 \<or> c = 12288 \<or> c = 65279)"

definition trim :: "jsstring \<Rightarrow> jsstring" where
  "trim s = rev (dropWhile isSpace (rev (dropWhile isSpace s)))"

text \<open>
  \<open>toLowerCase\<close>, code unit by code unit. The ASCII capitals go to their small letters.
  Outside ASCII only U+0130 (to \<open>i\<close> and U+0307) and U+212A (to \<open>k\<close>) lower-case to
  something that holds an ASCII letter; every other code unit lower-cases to code units
  outside ASCII and is left as it is here, since the source compares lower-cased text with
  ASCII keywords and keys only.
\<close>

definition lowerUnit :: "jschar \<Rightarrow> jsstring" where
  "lowerUnit c = (if 65 \<le> c \<and> c \<le> 90 then [c + 32]
     else if c = 304 then [105, 775]
     else if c = 8490 then [107]
     else [c])"

definition toLowerCase :: "jsstring \<Rightarrow> jsstring" where
  "toLowerCase s = concat (map lowerUnit s)"

text \<open>\<open>s.includes(k)\<close>: \<open>k\<close> occurs in \<open>s\<close> as a substring.\<close>

fun js_includes :: "jsstring \<Rightarrow> jsstring \<Rightarrow> bool" where
  "js_includes [] k = (k = [])"
| "js_includes (c # cs) k = (prefix k (c # cs) \<or> js_includes cs k)"

text \<open>
  \<open>s.split(sep)\<close> for a separator that matches exactly one code unit (\<open>'\n'\<close>,
  \<open>/[,;\t]/\<close>, \<open>/[,;|]/\<close>): the empty string gives one empty piece, and two separators
  in a row give an empty piece between them.
\<close>

fun split_on :: "(jschar \<Rightarrow> bool) \<Rightarrow> jsstring \<Rightarrow> jsstring list" where
  "split_on sep [] = [[]]"
| "split_on sep (c # cs) =
     (if sep c then [] # split_on sep cs
      else (case split_on sep cs of [] \<Rightarrow> [[c]] | w # ws \<Rightarrow> (c # w) # ws))"

text \<open>
  \<open>s.split(/\s+/)\<close>: the pieces between the maximal runs of whitespace. A run at the
  start or at the end of \<open>s\<close> leaves an empty piece there, as in JavaScript.
\<close>

function split_ws :: "jsstring \<Rightarrow> jsstring list" where
  "split_ws [] = [[]]"
| "split_ws (c # cs) =
     (if isSpace c then [] # split_ws (dropWhile isSpace cs)
      else (case split_ws cs of [] \<Rightarrow> [[c]] | w # ws \<Rightarrow> (c # w) # ws))"
  by pat_completeness auto
termination
proof (relation "measure length")
  show "wf (measure length)" by simp
next
  fix c :: jschar and cs
  have "length (dropWhile isSpace cs) \<le> length cs"
    by (rule length_dropWhile_le)
  then show "(dropWhile isSpace cs, c # cs) \<in> measure length" by simp
next
  fix c :: jschar and cs
  show "(cs, c # cs) \<in> measure length" by simp
qed

text \<open>\<open>s.replace(/\s+/g, rep)\<close>: every maximal run of whitespace becomes \<open>rep\<close>.\<close>

function replace_ws_runs :: "jsstring \<Rightarrow> jsstring \<Rightarrow> jsstring" where
  "replace_ws_runs rep [] = []"
| "replace_ws_runs rep (c # cs) =
     (if isSpace c then rep @ replace_ws_runs rep (dropWhile isSpace cs)
      else c # replace_ws_runs rep cs)"
  by pat_completeness auto
termination
proof (relation "measure (\<lambda>(rep, s). length s)")
  show "wf (measure (\<lambda>(rep :: jsstring, s :: jsstring). length s))" by simp
next
  fix rep :: jsstring and c cs
  have "length (dropWhile isSpace cs) \<le> length cs"
    by (rule length_dropWhile_le)
  then show "((rep, dropWhile isSpace cs), rep, c # cs) \<in> measure (\<lambda>(rep, s). length s)"
    by simp
next
  fix rep :: jsstring and c cs
  show "((rep, cs), rep, c # cs) \<in> measure (\<lambda>(rep, s). length s)" by simp
qed

section \<open>FileParser: recognising names\<close>

text \<open>
  The regular expressions of \<open>isValidName\<close>'s \<open>invalidPatterns\<close>, each as the test
  it makes on its argument.
\<close>

definition justNumbers :: "jsstring \<Rightarrow> bool" where
  \<comment> \<open>\<open>/^\d+$/\<close>\<close>
  "justNumbers s = (s \<noteq> [] \<and> list_all isDigit s)"

definition hasAt :: "jsstring \<Rightarrow> bool" where
  \<comment> \<open>\<open>/@/\<close>\<close>
  "hasAt s = (64 \<in> set s)"

definition startsWithUrl :: "jsstring \<Rightarrow> bool" where
  \<comment> \<open>\<open>/^https?:\/\//\<close>\<close>
  "startsWithUrl s = (prefix (str ''http://'') s \<or> prefix (str ''https://'') s)"

definition hasDomain :: "jsstring \<Rightarrow> bool" where
  \<comment> \<open>\<open>/\.(com|org|net|edu)/\<close>\<close>
  "hasDomain s = (js_includes s (str ''.com'') \<or> js_includes s (str ''.org'') \<or>
     js_includes s (str ''.net'') \<or> js_includes s (str ''.edu''))"

definition fileExtensionPattern :: "jsstring \<Rightarrow> bool" where
  \<comment> \<open>\<open>/^\w+\.\w+$/\<close>: word characters, one dot, word characters (a dot is no word
      character, so the first \<open>\w+\<close> ends at the first character that is none)\<close>
  "fileExtensionPattern s =
     (let a = takeWhile isWord s in
      a \<noteq> [] \<and>
      (case dropWhile isWord s of
         [] \<Rightarrow> False
       | d # b \<Rightarrow> d = 46 \<and> b \<noteq> [] \<and> list_all isWord b))"

definition isValidName :: "jsstring \<Rightarrow> bool" where
  "isValidName s =
     (if s = [] then False
      else let cleanStr = trim s in
        if length cleanStr < 2 \<or> length cleanStr > 100 then False
        else if \<not> list_ex isLetter cleanStr then False
        else if 2 * length (filter isLetter cleanStr) < length cleanStr then False
        else let wordz = filter (\<lambda>w. length w > 0) (split_ws cleanStr) in
          if length wordz < 2 then False
          else if \<not> list_all (\<lambda>w. isLetter (hd w)) wordz then False
          else if justNumbers cleanStr \<or> hasAt cleanStr \<or> startsWithUrl cleanStr \<or>
                  hasDomain cleanStr \<or> fileExtensionPattern cleanStr then False
          else True)"

definition headerKeywords :: "jsstring list" where
  "headerKeywords = map str [''student'', ''name'', ''class'', ''list'', ''roster'', ''grade'',
     ''first'', ''last'', ''full'', ''students'', ''names'']"

definition isHeaderLine :: "jsstring \<Rightarrow> bool" where
  "isHeaderLine line =
     (let lowerLine = toLowerCase line in
      list_ex (\<lambda>keyword. js_includes lowerLine keyword) headerKeywords \<and> \<not> isValidName line)"

text \<open>
  \<open>line.replace(/^\d+\.?\s*/, '')\<close>: at the start of the line, the digits (at least
  one), one dot if it follows them, and the whitespace after that.
\<close>

definition stripOrdinal :: "jsstring \<Rightarrow> jsstring" where
  "stripOrdinal s =
     (case s of
        [] \<Rightarrow> s
      | c # _ \<Rightarrow>
          if isDigit c then
            (let r = dropWhile isDigit s;
                 r' = (case r of [] \<Rightarrow> r | d # ds \<Rightarrow> if d = 46 then ds else r)
             in dropWhile isSpace r')
          else s)"

text \<open>
  \<open>cleanLine.replace(/^[-*...]\s*/, '')\<close>. The class of the source holds \<open>-\<close>,
  \<open>*\<close> and the three characters U+00E2, U+20AC, U+00A2 that the file has between them and
  the closing bracket.
\<close>

definition isBullet :: "jschar \<Rightarrow> bool" where
  "isBullet c = (c = 45 \<or> c = 42 \<or> c = 226 \<or> c = 8364 \<or> c = 162)"

definition stripBullet :: "jsstring \<Rightarrow> jsstring" where
  "stripBullet s =
     (case s of
        [] \<Rightarrow> s
      | c # cs \<Rightarrow> if isBullet c then dropWhile isSpace cs else s)"

definition isLineSeparator :: "jschar \<Rightarrow> bool" where
  \<comment> \<open>\<open>/[,;|]/\<close>\<close>
  "isLineSeparator c = (c = 44 \<or> c = 59 \<or> c = 124)"

definition extractNamesFromLine :: "jsstring \<Rightarrow> jsstring list" where
  "extractNamesFromLine line =
     (let cleanLine = trim (stripOrdinal line);
          cleanLine = trim (stripBullet cleanLine)
      in if isValidName cleanLine then [cleanLine]
         else filter isValidName (map trim (split_on isLineSeparator cleanLine)))"

text \<open>
  \<open>cleanName\<close>. The class \<open>[^\w\s'-]\<close> removes every code unit that is no word
  character (letter, digit, underscore), no whitespace, no apostrophe and no hyphen.
\<close>

definition isNameChar :: "jschar \<Rightarrow> bool" where
  "isNameChar c = (isWord c \<or> isSpace c \<or> c = 39 \<or> c = 45)"

definition cleanName :: "jsstring \<Rightarrow> jsstring" where
  "cleanName nm =
     (if nm = [] then []
      else trim (filter isNameChar (replace_ws_runs [32] (trim nm))))"

text \<open>
  \<open>array.indexOf(x)\<close>, \<open>-1\<close> when \<open>x\<close> is absent, and the filter
  \<open>(name, index, array) => array.indexOf(name) === index\<close>.
\<close>

fun indexOfFrom :: "'a list \<Rightarrow> 'a \<Rightarrow> int \<Rightarrow> int" where
  "indexOfFrom [] x i = - 1"
| "indexOfFrom (y # ys) x i = (if y = x then i else indexOfFrom ys x (i + 1))"

definition indexOf :: "'a list \<Rightarrow> 'a \<Rightarrow> int" where
  "indexOf xs x = indexOfFrom xs x 0"

definition keepFirstIndex :: "'a list \<Rightarrow> 'a list" where
  "keepFirstIndex xs =
     map snd (filter (\<lambda>(i, x). indexOf xs x = int i) (enumerate 0 xs))"

definition cleanAndValidateNames :: "jsstring list \<Rightarrow> jsstring list" where
  "cleanAndValidateNames names =
     keepFirstIndex (filter (\<lambda>nm. nm \<noteq> [] \<and> isValidName nm) (map cleanName names))"

text \<open>
  \<open>extractNamesFromText\<close>: the loop over the lines adds each line's names to
  \<open>names\<close>, skipping the header lines.
\<close>

definition isNewline :: "jschar \<Rightarrow> bool" where
  "isNewline c = (c = 10)"

fun collectLineNames :: "jsstring list \<Rightarrow> jsstring list \<Rightarrow> jsstring list" where
  "collectLineNames [] names = names"
| "collectLineNames (line # rest) names =
     (if isHeaderLine line then collectLineNames rest names
      else collectLineNames rest (names @ extractNamesFromLine line))"

definition textLines :: "jsstring \<Rightarrow> jsstring list" where
  \<comment> \<open>\<open>text.split('\n').map(line => line.trim()).filter(line => line.length > 0)\<close>\<close>
  "textLines text = filter (\<lambda>line. length line > 0) (map trim (split_on isNewline text))"

definition extractNamesFromText :: "jsstring \<Rightarrow> jsstring list" where
  "extractNamesFromText text =
     (if text = [] then []
      else let lines = textLines text
           in cleanAndValidateNames (collectLineNames lines []))"

text \<open>
  \<open>parseCsvFile\<close>, from the text that \<open>readFileAsText\<close> delivers.
  \<open>[...new Set(names)]\<close> keeps the insertion order of a \<open>Set\<close>: a value is added when
  it is not in the set yet.
\<close>

definition isCsvDelimiter :: "jschar \<Rightarrow> bool" where
  \<comment> \<open>\<open>/[,;\t]/\<close>\<close>
  "isCsvDelimiter c = (c = 44 \<or> c = 59 \<or> c = 9)"

definition isQuote :: "jschar \<Rightarrow> bool" where
  \<comment> \<open>\<open>/['"]/\<close>\<close>
  "isQuote c = (c = 39 \<or> c = 34)"

fun setInsertAll :: "'a list \<Rightarrow> 'a list \<Rightarrow> 'a list" where
  "setInsertAll acc [] = acc"
| "setInsertAll acc (x # xs) =
     (if x \<in> set acc then setInsertAll acc xs else setInsertAll (acc @ [x]) xs)"

definition spreadSet :: "'a list \<Rightarrow> 'a list" where
  "spreadSet xs = setInsertAll [] xs"

definition csvCells :: "jsstring \<Rightarrow> jsstring list" where
  "csvCells line =
     map (\<lambda>cell. filter (\<lambda>c. \<not> isQuote c) (trim cell)) (split_on isCsvDelimiter line)"

fun collectCellNames :: "jsstring list \<Rightarrow> jsstring list \<Rightarrow> jsstring list" where
  "collectCellNames [] names = names"
| "collectCellNames (cell # rest) names =
     collectCellNames rest (names @ extractNamesFromText cell)"

fun collectCsvNames :: "jsstring list \<Rightarrow> jsstring list \<Rightarrow> jsstring list" where
  "collectCsvNames [] names = names"
| "collectCsvNames (line # rest) names =
     collectCsvNames rest (collectCellNames (csvCells line) names)"

definition csvLines :: "jsstring \<Rightarrow> jsstring list" where
  \<comment> \<open>\<open>text.split('\n').map(line => line.trim()).filter(line => line)\<close>\<close>
  "csvLines text = filter (\<lambda>line. line \<noteq> []) (map trim (split_on isNewline text))"

definition parseCsvFile :: "jsstring \<Rightarrow> jsstring list" where
  "parseCsvFile text =
     (let lines = csvLines text;
          names = collectCsvNames lines []
      in if length names = 0 then extractNamesFromText text else spreadSet names)"

text \<open>
  The specification's words for deduplication, "preserving first-seen order": going through
  the list, a value is kept when it has not been seen before.
\<close>

fun firstSeenFrom :: "'a list \<Rightarrow> 'a list \<Rightarrow> 'a list" where
  "firstSeenFrom seen [] = []"
| "firstSeenFrom seen (x # xs) =
     (if x \<in> set seen then firstSeenFrom seen xs else x # firstSeenFrom (x # seen) xs)"

definition firstSeen :: "'a list \<Rightarrow> 'a list" where
  "firstSeen xs = firstSeenFrom [] xs"

section \<open>FileParser: detecting the file type\<close>

text \<open>
  \<open>supportedFormats\<close> and \<open>extensionMap\<close> are object literals, so \<open>obj[key]\<close> finds the
  object's own property of that name or, failing that, the property that every object
  inherits from \<open>Object.prototype\<close>. Each inherited member is a function or an object and
  so counts as true in a condition.
\<close>

datatype parser = ParseTextFile | ParseCsvFile | ParseDocxFile | ParseXlsxFile | ParsePdfFile

definition supportedFormats :: "(jsstring \<times> parser) list" where
  "supportedFormats =
     [(str ''text/plain'', ParseTextFile),
      (str ''text/csv'', ParseCsvFile),
      (str ''application/vnd.openxmlformats-officedocument.wordprocessingml.document'',
         ParseDocxFile),
      (str ''application/vnd.openxmlformats-officedocument.spreadsheetml.sheet'',
         ParseXlsxFile),
      (str ''application/pdf'', ParsePdfFile),
      (str ''application/vnd.ms-excel'', ParseXlsxFile),
      (str ''text/comma-separated-values'', ParseCsvFile)]"

definition extensionMap :: "(jsstring \<times> jsstring) list" where
  "extensionMap =
     [(str ''txt'', str ''text/plain''),
      (str ''csv'', str ''text/csv''),
      (str ''docx'',
         str ''application/vnd.openxmlformats-officedocument.wordprocessingml.document''),
      (str ''doc'',
         str ''application/vnd.openxmlformats-officedocument.wordprocessingml.document''),
      (str ''xlsx'', str ''application/vnd.openxmlformats-officedocument.spreadsheetml.sheet''),
      (str ''xls'', str ''application/vnd.ms-excel''),
      (str ''pdf'', str ''application/pdf'')]"

definition objectPrototypeKeys :: "jsstring list" where
  "objectPrototypeKeys = map str [''constructor'', ''__defineGetter__'', ''__defineSetter__'',
     ''hasOwnProperty'', ''__lookupGetter__'', ''__lookupSetter__'', ''isPrototypeOf'',
     ''propertyIsEnumerable'', ''toString'', ''valueOf'', ''__proto__'', ''toLocaleString'']"

datatype 'v property = Own 'v | Inherited jsstring | Undefined

definition getProperty :: "(jsstring \<times> 'v) list \<Rightarrow> jsstring \<Rightarrow> 'v property" where
  "getProperty obj k =
     (case map_of obj k of
        Some v \<Rightarrow> Own v
      | None \<Rightarrow> if k \<in> set objectPrototypeKeys then Inherited k else Undefined)"

record jsFile =
  file_name :: jsstring
  file_type :: jsstring

text \<open>
  What \<open>detectFileType\<close> returns: a string, or the member of \<open>Object.prototype\<close> that
  the look-up in \<open>extensionMap\<close> found.
\<close>

datatype detected = MimeType jsstring | PrototypeMember jsstring

definition isDot :: "jschar \<Rightarrow> bool" where
  "isDot c = (c = 46)"

definition fileExtension :: "jsstring \<Rightarrow> jsstring" where
  \<comment> \<open>\<open>file.name.toLowerCase().split('.').pop()\<close>\<close>
  "fileExtension nm = last (split_on isDot (toLowerCase nm))"

definition detectFileType :: "jsFile \<Rightarrow> detected" where
  "detectFileType file =
     (if file_type file \<noteq> [] \<and> getProperty supportedFormats (file_type file) \<noteq> Undefined
      then MimeType (file_type file)
      else let extension = fileExtension (file_name file)
           in case getProperty extensionMap extension of
                Own detectedType \<Rightarrow> MimeType detectedType
              | Inherited k \<Rightarrow> PrototypeMember k
              | Undefined \<Rightarrow> MimeType (str ''text/plain''))"

text \<open>
  Which parser \<open>parseFile\<close> runs. A member of \<open>Object.prototype\<close> used as a key is
  turned into a string that names no property, so the look-up is undefined and the file is
  read as text.
\<close>

datatype dispatch = RunParser parser | CallInherited jsstring

definition parseFileDispatch :: "jsFile \<Rightarrow> dispatch" where
  "parseFileDispatch file =
     (case detectFileType file of
        MimeType fileType \<Rightarrow>
          (case getProperty supportedFormats fileType of
             Own p \<Rightarrow> RunParser p
           | Inherited k \<Rightarrow> CallInherited k
           | Undefined \<Rightarrow> RunParser ParseTextFile)
      | PrototypeMember k \<Rightarrow> RunParser ParseTextFile)"

section \<open>CertificateGenerator: placing text\<close>

text \<open>
  Coordinates are JavaScript numbers; they are modelled as real numbers with exact
  arithmetic.
\<close>

record position =
  pos_x :: real
  pos_y :: real
  pos_font :: jsstring
  pos_size :: real


definition positions_schoolName :: position where
  "positions_schoolName =
     \<lparr>pos_x = 500, pos_y = 253, pos_font = str ''Helvetica'', pos_size = 14\<rparr>"

definition positions_date :: position where
  "positions_date =
     \<lparr>pos_x = 500, pos_y = 109, pos_font = str ''Helvetica'', pos_size = 12\<rparr>"

definition positions_jaVolunteer :: position where
  "positions_jaVolunteer =
     \<lparr>pos_x = 380, pos_y = 182, pos_font = str ''Times-Italic'', pos_size = 14\<rparr>"

definition positions_teacher :: position where
  "positions_teacher =
     \<lparr>pos_x = 645, pos_y = 182, pos_font = str ''Times-Italic'', pos_size = 14\<rparr>"





section \<open>CertificateGenerator: the batch\<close>

type_synonym bytes = "nat list"

record certificate =
  studentName :: jsstring
  filename :: jsstring
  pdfBytes :: "bytes option"
  error :: "jsstring option"
  success :: bool

definition isSafeFilenameChar :: "jschar \<Rightarrow> bool" where
  \<comment> \<open>the characters that \<open>/[^a-zA-Z0-9\s-_]/g\<close> leaves\<close>
  "isSafeFilenameChar c = (isLetter c \<or> isDigit c \<or> isSpace c \<or> c = 45 \<or> c = 95)"

definition createSafeFilename :: "jsstring \<Rightarrow> jsstring" where
  "createSafeFilename nm =
     toLowerCase (replace_ws_runs [95] (filter isSafeFilenameChar nm)) @ str ''_certificate.pdf''"

text \<open>
  The object handed to the progress callback (its \<open>percentage\<close>, a rounded floating-point
  quotient, is left out). A callback returns some value or throws; the loop never looks at
  the value.
\<close>

record progress =
  p_current :: nat
  p_total :: nat
  p_student :: jsstring

datatype 'r callbackResult = Returned 'r | Thrown jsstring

text \<open>
  The calls the loop makes, in the order it makes them, are recorded in a trace.
  \<open>generateCertificate\<close> drives the PDF library, so it is a parameter: from the state of
  the generator and its arguments it gives the document's bytes or the message of the error
  it throws, and the next state.
\<close>

datatype event = ProgressCall progress | GenerateCall jsstring

record 'w bulkState =
  certificates :: "certificate list"
  trace :: "event list"
  world :: 'w

definition succeeded :: "jsstring \<Rightarrow> bytes \<Rightarrow> certificate" where
  "succeeded nm pdf =
     \<lparr>studentName = nm, filename = createSafeFilename nm, pdfBytes = Some pdf,
      error = None, success = True\<rparr>"

definition failed :: "jsstring \<Rightarrow> jsstring \<Rightarrow> certificate" where
  "failed nm msg =
     \<lparr>studentName = nm, filename = createSafeFilename nm, pdfBytes = None,
      error = Some msg, success = False\<rparr>"

text \<open>
  One pass of the loop body: the \<open>try\<close> block (the callback when there is one, then
  \<open>generateCertificate\<close> and the push of the success entry) and the \<open>catch\<close> block
  that pushes the failure entry.
\<close>

definition loopBody ::
  "(progress \<Rightarrow> 'r callbackResult) option \<Rightarrow>
   ('w \<Rightarrow> jsstring \<Rightarrow> 'i \<Rightarrow> (jsstring + bytes) \<times> 'w) \<Rightarrow>
   jsstring list \<Rightarrow> 'i \<Rightarrow> nat \<Rightarrow> 'w bulkState \<Rightarrow> 'w bulkState" where
  "loopBody progressCallback generateCertificate studentNames certificateInfo i st =
     (let nm = studentNames ! i;
          p = \<lparr>p_current = i + 1, p_total = length studentNames, p_student = nm\<rparr>;
          called = (case progressCallback of None \<Rightarrow> None | Some cb \<Rightarrow> Some (cb p));
          tr = (case progressCallback of
                  None \<Rightarrow> trace st
                | Some cb \<Rightarrow> trace st @ [ProgressCall p])
      in case called of
           Some (Thrown msg) \<Rightarrow>
             st\<lparr>certificates := certificates st @ [failed nm msg], trace := tr\<rparr>
         | _ \<Rightarrow>
             (case generateCertificate (world st) nm certificateInfo of
                (Inr pdf, w) \<Rightarrow>
                  \<lparr>certificates = certificates st @ [succeeded nm pdf],
                   trace = tr @ [GenerateCall nm], world = w\<rparr>
              | (Inl msg, w) \<Rightarrow>
                  \<lparr>certificates = certificates st @ [failed nm msg],
                   trace = tr @ [GenerateCall nm], world = w\<rparr>))"

function bulkLoop ::
  "(progress \<Rightarrow> 'r callbackResult) option \<Rightarrow>
   ('w \<Rightarrow> jsstring \<Rightarrow> 'i \<Rightarrow> (jsstring + bytes) \<times> 'w) \<Rightarrow>
   jsstring list \<Rightarrow> 'i \<Rightarrow> nat \<Rightarrow> 'w bulkState \<Rightarrow> 'w bulkState" where
  "bulkLoop progressCallback generateCertificate studentNames certificateInfo i st =
     (if i < length studentNames then
        bulkLoop progressCallback generateCertificate studentNames certificateInfo (i + 1)
          (loopBody progressCallback generateCertificate studentNames certificateInfo i st)
      else st)"
  by pat_completeness auto
termination
  by (relation "measure (\<lambda>(cb, g, names, info, i, st). length names - i)") auto

declare bulkLoop.simps [simp del]

definition bulkRun ::
  "(progress \<Rightarrow> 'r callbackResult) option \<Rightarrow>
   ('w \<Rightarrow> jsstring \<Rightarrow> 'i \<Rightarrow> (jsstring + bytes) \<times> 'w) \<Rightarrow>
   jsstring list \<Rightarrow> 'i \<Rightarrow> 'w \<Rightarrow> 'w bulkState" where
  "bulkRun progressCallback generateCertificate studentNames certificateInfo w =
     bulkLoop progressCallback generateCertificate studentNames certificateInfo 0
       \<lparr>certificates = [], trace = [], world = w\<rparr>"

definition generateBulkCertificates ::
  "(progress \<Rightarrow> 'r callbackResult) option \<Rightarrow>
   ('w \<Rightarrow> jsstring \<Rightarrow> 'i \<Rightarrow> (jsstring + bytes) \<times> 'w) \<Rightarrow>
   jsstring list \<Rightarrow> 'i \<Rightarrow> 'w \<Rightarrow> certificate list" where
  "generateBulkCertificates progressCallback generateCertificate studentNames certificateInfo w =
     certificates (bulkRun progressCallback generateCertificate studentNames certificateInfo w)"

text \<open>
  The specification's words for the batch: every name is rendered in turn, whatever the
  outcomes before it, and each outcome is recorded against its own name.
\<close>

fun renderOutcomes ::
  "('w \<Rightarrow> jsstring \<Rightarrow> 'i \<Rightarrow> (jsstring + bytes) \<times> 'w) \<Rightarrow> 'w \<Rightarrow> jsstring list \<Rightarrow> 'i \<Rightarrow>
   (jsstring + bytes) list" where
  "renderOutcomes g w [] info = []"
| "renderOutcomes g w (nm # rest) info =
     fst (g w nm info) # renderOutcomes g (snd (g w nm info)) rest info"

fun renderWorld ::
  "('w \<Rightarrow> jsstring \<Rightarrow> 'i \<Rightarrow> (jsstring + bytes) \<times> 'w) \<Rightarrow> 'w \<Rightarrow> jsstring list \<Rightarrow> 'i \<Rightarrow> 'w" where
  "renderWorld g w [] info = w"
| "renderWorld g w (nm # rest) info = renderWorld g (snd (g w nm info)) rest info"

definition resultEntry :: "jsstring \<Rightarrow> jsstring + bytes \<Rightarrow> certificate" where
  "resultEntry nm outcome =
     (case outcome of Inr pdf \<Rightarrow> succeeded nm pdf | Inl msg \<Rightarrow> failed nm msg)"

text \<open>
  For the examples: a generator that always succeeds, one that fails for "C D" as in the
  specification's test, and the absent callback.
\<close>

definition renderAlways :: "unit \<Rightarrow> jsstring \<Rightarrow> unit \<Rightarrow> (jsstring + bytes) \<times> unit" where
  "renderAlways w nm info = (Inr [37, 80, 68, 70], w)"


definition noCallback :: "(progress \<Rightarrow> unit callbackResult) option" where
  "noCallback = None"

section \<open>CertificateGenerator: the archive\<close>

text \<open>
  JSZip is a library outside the repository. \<open>zip.file(name, data)\<close> adds an entry of
  that name, or replaces the data of the entry that has the name already.
\<close>

datatype zipEntry = PdfEntry "bytes option" | TextEntry jsstring

type_synonym zipArchive = "(jsstring \<times> zipEntry) list"

definition zipFile :: "jsstring \<Rightarrow> zipEntry \<Rightarrow> zipArchive \<Rightarrow> zipArchive" where
  "zipFile nm data archive = AList.update nm data archive"

text \<open>\<open>String(n)\<close> for a length, and \<open>'-'.repeat(30)\<close>.\<close>

fun numberToString :: "nat \<Rightarrow> jsstring" where
  "numberToString n =
     (if n < 10 then [48 + n] else numberToString (n div 10) @ [48 + n mod 10])"

declare numberToString.simps [simp del]

fun summaryLines :: "(certificate \<Rightarrow> jsstring) \<Rightarrow> certificate list \<Rightarrow> jsstring" where
  "summaryLines line [] = []"
| "summaryLines line (cert # rest) = line cert @ summaryLines line rest"

text \<open>
  \<open>createSummaryText\<close>; \<open>now\<close> is the text of \<open>new Date().toLocaleString()\<close>, and
  8226 is the bullet U+2022.
\<close>

definition createSummaryText :: "jsstring \<Rightarrow> certificate list \<Rightarrow> jsstring" where
  "createSummaryText now certs =
     (let successful = filter success certs;
          failedCerts = filter (\<lambda>cert. \<not> success cert) certs;
          summary = str ''Certificate Generation Summary\<newline>'';
          summary = summary @ str ''Generated on: '' @ now @ str ''\<newline>\<newline>'';
          summary = summary @ str ''Total certificates requested: '' @
                      numberToString (length certs) @ str ''\<newline>'';
          summary = summary @ str ''Successfully generated: '' @
                      numberToString (length successful) @ str ''\<newline>'';
          summary = summary @ str ''Failed: '' @
                      numberToString (length failedCerts) @ str ''\<newline>\<newline>'';
          summary =
            (if length successful > 0 then
               summary @ str ''Successfully Generated:\<newline>'' @ replicate 30 45 @
                 str ''\<newline>'' @
                 summaryLines (\<lambda>cert. [8226, 32] @ studentName cert @ str ''\<newline>'')
                   successful @
                 str ''\<newline>''
             else summary);
          summary =
            (if length failedCerts > 0 then
               summary @ str ''Failed to Generate:\<newline>'' @ replicate 30 45 @
                 str ''\<newline>'' @
                 summaryLines
                   (\<lambda>cert. [8226, 32] @ studentName cert @ str '': '' @
                      (case error cert of Some msg \<Rightarrow> msg | None \<Rightarrow> str ''undefined'') @
                      str ''\<newline>'')
                   failedCerts
             else summary)
      in summary)"

fun addCertificates :: "certificate list \<Rightarrow> zipArchive \<Rightarrow> zipArchive" where
  "addCertificates [] archive = archive"
| "addCertificates (cert # rest) archive =
     addCertificates rest (zipFile (filename cert) (PdfEntry (pdfBytes cert)) archive)"

definition summaryFilename :: jsstring where
  "summaryFilename = str ''certificate_summary.txt''"

definition createZipFile :: "jsstring \<Rightarrow> certificate list \<Rightarrow> zipArchive" where
  "createZipFile now certs =
     (let archive = [];
          successfulCerts = filter success certs;
          archive = addCertificates successfulCerts archive;
          summary = createSummaryText now certs
      in zipFile summaryFilename (TextEntry summary) archive)"

section \<open>Auxiliary notions for the proofs\<close>

text \<open>
  A token is a maximal run of code units that are no whitespace. \<open>tokenStarts\<close> counts
  the tokens that start in a string and \<open>startsOk\<close> says that each of them starts with a
  letter; the flag tells whether a token starts at the first code unit when that is no
  whitespace (it does not when the string continues a token).
\<close>

fun tokenStarts :: "bool \<Rightarrow> jsstring \<Rightarrow> nat" where
  "tokenStarts b [] = 0"
| "tokenStarts b (c # cs) =
     (if isSpace c then tokenStarts True cs
      else (if b then 1 else 0) + tokenStarts False cs)"

fun startsOk :: "bool \<Rightarrow> jsstring \<Rightarrow> bool" where
  "startsOk b [] = True"
| "startsOk b (c # cs) =
     (if isSpace c then startsOk True cs
      else (b \<longrightarrow> isLetter c) \<and> startsOk False cs)"

text \<open>
  A string is tight when each whitespace in it is a plain space that is followed at once
  by a letter.
\<close>

fun tight :: "jsstring \<Rightarrow> bool" where
  "tight [] = True"
| "tight [c] = (\<not> isSpace c)"
| "tight (c # d # cs) = ((isSpace c \<longrightarrow> c = 32 \<and> isLetter d) \<and> tight (d # cs))"

section \<open>Facts about the string functions\<close>

lemma str_inject: "str a = str b \<longleftrightarrow> a = b"
  unfolding str_def by (simp add: inj_map_eq_map inj_on_def)


section \<open>Facts about the detection of the file type\<close>

text \<open>\<open>split\<close> never gives the empty array, so \<open>pop()\<close> finds a last piece.\<close>

lemma split_on_not_Nil: "split_on sep s \<noteq> []"
  by (induction s) (auto split: list.splits)


section \<open>Facts about the batch loop\<close>


lemma loopBody_None:
  "loopBody None g names info i st =
     \<lparr>certificates = certificates st @ [resultEntry (names ! i) (fst (g (world st) (names ! i) info))],
      trace = trace st @ [GenerateCall (names ! i)],
      world = snd (g (world st) (names ! i) info)\<rparr>"
  by (auto simp: loopBody_def Let_def resultEntry_def split: prod.splits sum.splits)

lemma loopBody_Returned:
  assumes "\<exists>r. cb \<lparr>p_current = i + 1, p_total = length names, p_student = names ! i\<rparr> = Returned r"
  shows "loopBody (Some cb) g names info i st =
     \<lparr>certificates = certificates st @ [resultEntry (names ! i) (fst (g (world st) (names ! i) info))],
      trace = trace st @
        [ProgressCall \<lparr>p_current = i + 1, p_total = length names, p_student = names ! i\<rparr>,
         GenerateCall (names ! i)],
      world = snd (g (world st) (names ! i) info)\<rparr>"
  using assms by (auto simp: loopBody_def Let_def resultEntry_def split: prod.splits sum.splits)


lemma bulkLoop_None:
  "bulkLoop None g names info i st =
     \<lparr>certificates = certificates st @
        map2 resultEntry (drop i names) (renderOutcomes g (world st) (drop i names) info),
      trace = trace st @ map GenerateCall (drop i names),
      world = renderWorld g (world st) (drop i names) info\<rparr>"
proof (induction "None :: (progress \<Rightarrow> 'c callbackResult) option" g names info i st
    rule: bulkLoop.induct)
  case (1 g names info i st)
  show ?case
  proof (cases "i < length names")
    case True
    have d: "drop i names = names ! i # drop (Suc i) names"
      using True by (simp add: Cons_nth_drop_Suc)
    show ?thesis
      using "1.hyps" [OF True] True
      by (subst bulkLoop.simps) (simp add: loopBody_None d)
  next
    case False
    then show ?thesis by (subst bulkLoop.simps) simp
  qed
qed

lemma bulkLoop_Returned:
  assumes r: "\<And>p. \<exists>r. cb p = Returned r"
  shows "bulkLoop (Some cb) g names info i st =
     \<lparr>certificates = certificates st @
        map2 resultEntry (drop i names) (renderOutcomes g (world st) (drop i names) info),
      trace = trace st @
        concat (map (\<lambda>k. [ProgressCall
                            \<lparr>p_current = k + 1, p_total = length names, p_student = names ! k\<rparr>,
                          GenerateCall (names ! k)]) [i..<length names]),
      world = renderWorld g (world st) (drop i names) info\<rparr>"
proof (induction "Some cb" g names info i st rule: bulkLoop.induct)
  case (1 g names info i st)
  show ?case
  proof (cases "i < length names")
    case True
    have d: "drop i names = names ! i # drop (Suc i) names"
      using True by (simp add: Cons_nth_drop_Suc)
    have u: "[i..<length names] = i # [Suc i..<length names]"
      using True by (simp add: upt_conv_Cons)
    show ?thesis
      using "1.hyps" [OF True] True
      by (subst bulkLoop.simps) (simp add: loopBody_Returned r d u)
  next
    case False
    then show ?thesis by (subst bulkLoop.simps) simp
  qed
qed

lemma bulkLoop_unfold1:
  "bulkLoop cb g [a] info 0 st = loopBody cb g [a] info 0 st"
  by (simp add: bulkLoop.simps)


section \<open>Facts about the archive\<close>

lemma map_of_zipFile: "map_of (zipFile nm d z) = (map_of z)(nm \<mapsto> d)"
  by (simp add: zipFile_def AList.update_conv')

lemma keys_zipFile: "fst ` set (zipFile nm d z) = insert nm (fst ` set z)"
  by (simp add: zipFile_def AList.dom_update)

lemma distinct_zipFile: "distinct (map fst z) \<Longrightarrow> distinct (map fst (zipFile nm d z))"
  by (simp add: zipFile_def AList.distinct_update)

lemma zipFile_fresh: "nm \<notin> fst ` set z \<Longrightarrow> zipFile nm d z = z @ [(nm, d)]"
  unfolding zipFile_def by (induction z) auto

lemma find_snoc:
  "find P (xs @ [x]) = (case find P xs of None \<Rightarrow> (if P x then Some x else None) | Some y \<Rightarrow> Some y)"
  by (induction xs) auto

lemma map_of_addCertificates:
  "map_of (addCertificates cs z) f =
     (case find (\<lambda>c. filename c = f) (rev cs) of
        None \<Rightarrow> map_of z f
      | Some c \<Rightarrow> Some (PdfEntry (pdfBytes c)))"
proof (induction cs arbitrary: z)
  case Nil
  then show ?case by simp
next
  case (Cons c cs)
  show ?case
    by (simp add: Cons.IH map_of_zipFile find_snoc split: option.splits)
qed

lemma keys_addCertificates:
  "fst ` set (addCertificates cs z) = filename ` set cs \<union> fst ` set z"
  by (induction cs arbitrary: z) (auto simp: keys_zipFile)

lemma distinct_addCertificates:
  "distinct (map fst z) \<Longrightarrow> distinct (map fst (addCertificates cs z))"
  by (induction cs arbitrary: z) (auto simp: distinct_zipFile)

lemma addCertificates_distinct:
  "distinct (map filename cs) \<Longrightarrow> filename ` set cs \<inter> fst ` set z = {} \<Longrightarrow>
   addCertificates cs z = z @ map (\<lambda>c. (filename c, PdfEntry (pdfBytes c))) cs"
proof (induction cs arbitrary: z)
  case Nil
  then show ?case by simp
next
  case (Cons c cs)
  have f: "filename c \<notin> fst ` set z" using Cons.prems by auto
  have "filename ` set cs \<inter> fst ` set (z @ [(filename c, PdfEntry (pdfBytes c))]) = {}"
    using Cons.prems by auto
  then show ?case
    using Cons.IH [of "z @ [(filename c, PdfEntry (pdfBytes c))]"] Cons.prems
    by (simp add: zipFile_fresh [OF f])
qed

lemma createSafeFilename_A_B: "createSafeFilename (str ''A B'') = str ''a_b_certificate.pdf''"
  by (simp add: createSafeFilename_def isSafeFilenameChar_def isLetter_def isDigit_def
      isSpace_def toLowerCase_def lowerUnit_def str_def)

lemma createSafeFilename_a_b: "createSafeFilename (str ''a b'') = str ''a_b_certificate.pdf''"
  by (simp add: createSafeFilename_def isSafeFilenameChar_def isLetter_def isDigit_def
      isSpace_def toLowerCase_def lowerUnit_def str_def)


section \<open>Facts about deduplication and the collecting loops\<close>

lemma str_Nil_iff: "str s = [] \<longleftrightarrow> s = []"
  by (simp add: str_def)

lemma firstSeenFrom_cong: "set seen = set seen' \<Longrightarrow> firstSeenFrom seen xs = firstSeenFrom seen' xs"
proof (induction xs arbitrary: seen seen')
  case Nil
  then show ?case by simp
next
  case (Cons x xs)
  have "set (x # seen) = set (x # seen')" using Cons.prems by simp
  then have "firstSeenFrom (x # seen) xs = firstSeenFrom (x # seen') xs"
    by (rule Cons.IH)
  moreover have "firstSeenFrom seen xs = firstSeenFrom seen' xs"
    using Cons.prems by (rule Cons.IH)
  ultimately show ?case using Cons.prems by simp
qed

lemma set_firstSeenFrom: "set (firstSeenFrom seen xs) = set xs - set seen"
  by (induction xs arbitrary: seen) auto

lemma distinct_firstSeenFrom: "distinct (firstSeenFrom seen xs)"
  by (induction xs arbitrary: seen) (auto simp: set_firstSeenFrom)

lemma distinct_firstSeen: "distinct (firstSeen xs)"
  by (simp add: firstSeen_def distinct_firstSeenFrom)

lemma set_firstSeen: "set (firstSeen xs) = set xs"
  by (simp add: firstSeen_def set_firstSeenFrom)

lemma setInsertAll_firstSeenFrom: "setInsertAll acc xs = acc @ firstSeenFrom acc xs"
proof (induction xs arbitrary: acc)
  case Nil
  then show ?case by simp
next
  case (Cons x xs)
  have "firstSeenFrom (acc @ [x]) xs = firstSeenFrom (x # acc) xs"
    by (rule firstSeenFrom_cong) simp
  then show ?case by (simp add: Cons.IH)
qed

lemma spreadSet_firstSeen: "spreadSet xs = firstSeen xs"
  by (simp add: spreadSet_def firstSeen_def setInsertAll_firstSeenFrom)

lemma indexOfFrom_absent:
  "x \<notin> set pre \<Longrightarrow> indexOfFrom (pre @ ys) x k = indexOfFrom ys x (k + int (length pre))"
  by (induction pre arbitrary: k) (auto simp: algebra_simps)

lemma indexOfFrom_present:
  "x \<in> set pre \<Longrightarrow> indexOfFrom (pre @ ys) x k < k + int (length pre)"
proof (induction pre arbitrary: k)
  case Nil
  then show ?case by simp
next
  case (Cons p pre)
  show ?case
  proof (cases "p = x")
    case True
    then show ?thesis by simp
  next
    case False
    then have "x \<in> set pre" using Cons.prems by simp
    from Cons.IH [OF this, of "k + 1"] False show ?thesis by simp
  qed
qed

lemma indexOf_first:
  "indexOfFrom (pre @ x # ys) x 0 = int (length pre) \<longleftrightarrow> x \<notin> set pre"
proof (cases "x \<in> set pre")
  case True
  from indexOfFrom_present [OF True, of "x # ys" 0] True show ?thesis by simp
next
  case False
  then show ?thesis by (simp add: indexOfFrom_absent)
qed

lemma keepFirstIndex_aux:
  "map snd (filter (\<lambda>(i, x). indexOfFrom (pre @ xs) x 0 = int i) (enumerate (length pre) xs)) =
     firstSeenFrom pre xs"
proof (induction xs arbitrary: pre)
  case Nil
  then show ?case by simp
next
  case (Cons y ys)
  have ih: "map snd (filter (\<lambda>(i, x). indexOfFrom (pre @ y # ys) x 0 = int i)
              (enumerate (Suc (length pre)) ys)) = firstSeenFrom (pre @ [y]) ys"
    using Cons.IH [of "pre @ [y]"] by simp
  have c1: "firstSeenFrom (pre @ [y]) ys = firstSeenFrom (y # pre) ys"
    by (rule firstSeenFrom_cong) simp
  have c2: "y \<in> set pre \<Longrightarrow> firstSeenFrom (pre @ [y]) ys = firstSeenFrom pre ys"
    by (rule firstSeenFrom_cong) auto
  show ?case
    using ih c1 c2 by (simp add: indexOf_first)
qed

lemma keepFirstIndex_firstSeen: "keepFirstIndex xs = firstSeen xs"
  using keepFirstIndex_aux [of "[]" xs]
  by (simp add: keepFirstIndex_def firstSeen_def indexOf_def)

lemma collectLineNames_concat:
  "collectLineNames lines names =
     names @ concat (map (\<lambda>l. if isHeaderLine l then [] else extractNamesFromLine l) lines)"
  by (induction lines arbitrary: names) auto

lemma collectCellNames_concat:
  "collectCellNames cells names = names @ concat (map extractNamesFromText cells)"
  by (induction cells arbitrary: names) auto

lemma collectCsvNames_concat:
  "collectCsvNames lines names =
     names @ concat (map (\<lambda>l. concat (map extractNamesFromText (csvCells l))) lines)"
  by (induction lines arbitrary: names) (auto simp: collectCellNames_concat)

section \<open>The functions at the inputs of the specification\<close>

lemmas char_classes = isLetter_def isDigit_def isWord_def isSpace_def
lemmas name_tests = isValidName_def trim_def justNumbers_def hasAt_def startsWithUrl_def
  hasDomain_def fileExtensionPattern_def Let_def
lemmas line_steps = extractNamesFromLine_def stripOrdinal_def stripBullet_def isBullet_def
  isLineSeparator_def

lemma valid_Student_Name: "isValidName (str ''Student Name'')"
  by (simp add: str_def char_classes name_tests)
lemma valid_John_Smith: "isValidName (str ''John Smith'')"
  by (simp add: str_def char_classes name_tests)
lemma valid_Maria_Garcia: "isValidName (str ''Maria Garcia'')"
  by (simp add: str_def char_classes name_tests)
lemma invalid_Grade: "\<not> isValidName (str ''Grade'')"
  by (simp add: str_def char_classes name_tests)
lemma line_Student_Name: "extractNamesFromLine (str ''Student Name'') = [str ''Student Name'']"
  by (simp add: str_def char_classes name_tests line_steps)
lemma line_John_Smith: "extractNamesFromLine (str ''John Smith'') = [str ''John Smith'']"
  by (simp add: str_def char_classes name_tests line_steps)
lemma line_Maria_Garcia: "extractNamesFromLine (str ''Maria Garcia'') = [str ''Maria Garcia'']"
  by (simp add: str_def char_classes name_tests line_steps)
lemma line_K: "extractNamesFromLine (str ''K'') = []"
  by (simp add: str_def char_classes name_tests line_steps)

lemma clean_Student_Name: "cleanName (str ''Student Name'') = str ''Student Name''"
  by (simp add: str_def char_classes cleanName_def isNameChar_def trim_def)
lemma clean_John_Smith: "cleanName (str ''John Smith'') = str ''John Smith''"
  by (simp add: str_def char_classes cleanName_def isNameChar_def trim_def)
lemma clean_Maria_Garcia: "cleanName (str ''Maria Garcia'') = str ''Maria Garcia''"
  by (simp add: str_def char_classes cleanName_def isNameChar_def trim_def)

lemma lines_Student_Name: "textLines (str ''Student Name'') = [str ''Student Name'']"
  by (simp add: str_def char_classes textLines_def isNewline_def trim_def)
lemma lines_John_Smith: "textLines (str ''John Smith'') = [str ''John Smith'']"
  by (simp add: str_def char_classes textLines_def isNewline_def trim_def)
lemma lines_Maria_Garcia: "textLines (str ''Maria Garcia'') = [str ''Maria Garcia'']"
  by (simp add: str_def char_classes textLines_def isNewline_def trim_def)
lemma lines_Grade: "textLines (str ''Grade'') = [str ''Grade'']"
  by (simp add: str_def char_classes textLines_def isNewline_def trim_def)
lemma lines_K: "textLines (str ''K'') = [str ''K'']"
  by (simp add: str_def char_classes textLines_def isNewline_def trim_def)

lemma header_Grade: "isHeaderLine (str ''Grade'')"
proof -
  have "js_includes (toLowerCase (str ''Grade'')) (str ''grade'')"
    by (simp add: str_def toLowerCase_def lowerUnit_def)
  then have "list_ex (\<lambda>keyword. js_includes (toLowerCase (str ''Grade'')) keyword) headerKeywords"
    by (simp add: headerKeywords_def)
  then show ?thesis
    by (simp add: isHeaderLine_def invalid_Grade Let_def)
qed

lemma isHeaderLine_valid: "isValidName l \<Longrightarrow> \<not> isHeaderLine l"
  by (simp add: isHeaderLine_def Let_def)

lemma cleanAndValidateNames_single:
  "cleanName n = n \<Longrightarrow> n \<noteq> [] \<Longrightarrow> isValidName n \<Longrightarrow> cleanAndValidateNames [n] = [n]"
  by (simp add: cleanAndValidateNames_def keepFirstIndex_firstSeen firstSeen_def)

lemma text_Student_Name: "extractNamesFromText (str ''Student Name'') = [str ''Student Name'']"
  by (simp add: extractNamesFromText_def str_Nil_iff lines_Student_Name
      isHeaderLine_valid valid_Student_Name line_Student_Name
      cleanAndValidateNames_single clean_Student_Name)

lemma text_John_Smith: "extractNamesFromText (str ''John Smith'') = [str ''John Smith'']"
  by (simp add: extractNamesFromText_def str_Nil_iff lines_John_Smith
      isHeaderLine_valid valid_John_Smith line_John_Smith
      cleanAndValidateNames_single clean_John_Smith)

lemma text_Maria_Garcia: "extractNamesFromText (str ''Maria Garcia'') = [str ''Maria Garcia'']"
  by (simp add: extractNamesFromText_def str_Nil_iff lines_Maria_Garcia
      isHeaderLine_valid valid_Maria_Garcia line_Maria_Garcia
      cleanAndValidateNames_single clean_Maria_Garcia)

lemma text_Grade: "extractNamesFromText (str ''Grade'') = []"
  by (simp add: extractNamesFromText_def str_Nil_iff lines_Grade header_Grade
      cleanAndValidateNames_def keepFirstIndex_firstSeen firstSeen_def)

lemma text_K: "extractNamesFromText (str ''K'') = []"
  by (simp add: extractNamesFromText_def str_Nil_iff lines_K line_K
      cleanAndValidateNames_def keepFirstIndex_firstSeen firstSeen_def)

lemma csvLines_roster:
  "csvLines (str ''Student Name,Grade\<newline>John Smith,K\<newline>Maria Garcia,K'') =
     [str ''Student Name,Grade'', str ''John Smith,K'', str ''Maria Garcia,K'']"
  by (simp add: str_def char_classes csvLines_def isNewline_def trim_def)

lemma csvCells_header: "csvCells (str ''Student Name,Grade'') = [str ''Student Name'', str ''Grade'']"
  by (simp add: str_def char_classes csvCells_def isCsvDelimiter_def isQuote_def trim_def)

lemma csvCells_John: "csvCells (str ''John Smith,K'') = [str ''John Smith'', str ''K'']"
  by (simp add: str_def char_classes csvCells_def isCsvDelimiter_def isQuote_def trim_def)

lemma csvCells_Maria: "csvCells (str ''Maria Garcia,K'') = [str ''Maria Garcia'', str ''K'']"
  by (simp add: str_def char_classes csvCells_def isCsvDelimiter_def isQuote_def trim_def)

lemma lines_three:
  "textLines (str ''Maria Garcia\<newline>John Smith\<newline>Maria Garcia'') =
     [str ''Maria Garcia'', str ''John Smith'', str ''Maria Garcia'']"
  by (simp add: str_def char_classes textLines_def isNewline_def trim_def)

lemma text_three:
  "extractNamesFromText (str ''Maria Garcia\<newline>John Smith\<newline>Maria Garcia'') =
     [str ''Maria Garcia'', str ''John Smith'']"
  by (simp add: extractNamesFromText_def str_Nil_iff lines_three collectLineNames_concat
      isHeaderLine_valid valid_Maria_Garcia valid_John_Smith line_Maria_Garcia line_John_Smith
      cleanAndValidateNames_def clean_Maria_Garcia clean_John_Smith
      keepFirstIndex_firstSeen firstSeen_def str_inject)















section \<open>Facts about tokens, trimming and the validity test\<close>

lemma space_not_letter: "isSpace c \<Longrightarrow> \<not> isLetter c"
  by (auto simp: isSpace_def isLetter_def)

lemma letter_not_space: "isLetter c \<Longrightarrow> \<not> isSpace c"
  using space_not_letter by blast

lemma letter_nameChar: "isLetter c \<Longrightarrow> isNameChar c"
  by (simp add: isNameChar_def isWord_def)

lemma space_nameChar: "isSpace c \<Longrightarrow> isNameChar c"
  by (simp add: isNameChar_def)



lemma isSpace_32: "isSpace 32"
  by (simp add: isSpace_def)



lemma tokenStarts_dropWhile: "tokenStarts True (dropWhile isSpace cs) = tokenStarts True cs"
  by (induction cs) auto

lemma startsOk_dropWhile: "startsOk True (dropWhile isSpace cs) = startsOk True cs"
  by (induction cs) auto


lemma split_ws_not_Nil: "split_ws s \<noteq> []"
  by (induction s rule: split_ws.induct) (auto split: list.splits)

lemma split_ws_tokens:
  "length (filter (\<lambda>w. 0 < length w) (split_ws s)) = tokenStarts True s \<and>
   length (filter (\<lambda>w. 0 < length w) (tl (split_ws s))) = tokenStarts False s"
proof (induction s rule: split_ws.induct)
  case 1
  then show ?case by simp
next
  case (2 c cs)
  show ?case
  proof (cases "isSpace c")
    case True
    then show ?thesis using 2 by (simp add: tokenStarts_dropWhile)
  next
    case False
    obtain w ws where w: "split_ws cs = w # ws"
      using split_ws_not_Nil [of cs] by (cases "split_ws cs") auto
    show ?thesis using 2 False w by simp
  qed
qed

lemma split_ws_starts:
  "list_all (\<lambda>w. isLetter (hd w)) (filter (\<lambda>w. 0 < length w) (split_ws s)) = startsOk True s \<and>
   list_all (\<lambda>w. isLetter (hd w)) (filter (\<lambda>w. 0 < length w) (tl (split_ws s))) =
     startsOk False s"
proof (induction s rule: split_ws.induct)
  case 1
  then show ?case by simp
next
  case (2 c cs)
  show ?case
  proof (cases "isSpace c")
    case True
    then show ?thesis using 2 by (simp add: startsOk_dropWhile)
  next
    case False
    obtain w ws where w: "split_ws cs = w # ws"
      using split_ws_not_Nil [of cs] by (cases "split_ws cs") auto
    show ?thesis using 2 False w by simp
  qed
qed

lemma isValidName_iff:
  "isValidName s \<longleftrightarrow>
     s \<noteq> [] \<and> 2 \<le> length (trim s) \<and> length (trim s) \<le> 100 \<and>
     (\<exists>c \<in> set (trim s). isLetter c) \<and>
     length (trim s) \<le> 2 * length (filter isLetter (trim s)) \<and>
     2 \<le> tokenStarts True (trim s) \<and> startsOk True (trim s) \<and>
     \<not> justNumbers (trim s) \<and> \<not> hasAt (trim s) \<and> \<not> startsWithUrl (trim s) \<and>
     \<not> hasDomain (trim s) \<and> \<not> fileExtensionPattern (trim s)"
proof -
  have a: "length (filter (\<lambda>w. 0 < length w) (split_ws (trim s))) = tokenStarts True (trim s)"
    using split_ws_tokens by blast
  have b: "list_all (\<lambda>w. isLetter (hd w)) (filter (\<lambda>w. 0 < length w) (split_ws (trim s))) =
      startsOk True (trim s)"
    using split_ws_starts by blast
  show ?thesis
    unfolding isValidName_def Let_def a b list_ex_iff
    by (simp add: not_less)
qed

lemma trim_Nil: "trim [] = []"
  by (simp add: trim_def)

lemma last_dropWhile: "dropWhile P xs \<noteq> [] \<Longrightarrow> last (dropWhile P xs) = last xs"
  by (induction xs) auto

lemma trim_ends:
  assumes "trim s \<noteq> []"
  shows "\<not> isSpace (hd (trim s)) \<and> \<not> isSpace (last (trim s))"
proof -
  let ?u = "dropWhile isSpace s"
  let ?v = "dropWhile isSpace (rev ?u)"
  have t: "trim s = rev ?v" by (simp add: trim_def)
  have v: "?v \<noteq> []" using assms t by simp
  have u: "?u \<noteq> []"
  proof
    assume "?u = []"
    then have "rev ?u = []" by simp
    then have "?v = []" by (simp only: dropWhile.simps)
    with v show False by simp
  qed
  have "\<not> isSpace (hd ?v)" using v by (rule hd_dropWhile)
  then have l: "\<not> isSpace (last (trim s))" using v by (simp add: t last_rev)
  have "last ?v = last (rev ?u)" using v by (rule last_dropWhile)
  also have "\<dots> = hd ?u" using u by (simp add: last_rev)
  finally have "hd (trim s) = hd ?u" using v by (simp add: t hd_rev)
  moreover have "\<not> isSpace (hd ?u)" using u by (rule hd_dropWhile)
  ultimately show ?thesis using l by simp
qed

lemma trim_id:
  assumes "s \<noteq> []" "\<not> isSpace (hd s)" "\<not> isSpace (last s)"
  shows "trim s = s"
proof -
  have a: "dropWhile isSpace s = s" using assms by (cases s) auto
  have "rev s \<noteq> []" "\<not> isSpace (hd (rev s))" using assms by (simp_all add: hd_rev)
  then have "dropWhile isSpace (rev s) = rev s" by (cases "rev s") auto
  then show ?thesis by (simp add: trim_def a)
qed


lemma set_trim_subset: "set (trim s) \<subseteq> set s"
  by (auto simp: trim_def dest!: set_dropWhileD)





section \<open>Facts about collapsing whitespace and stripping characters\<close>

lemma tight_Cons_nonspace: "\<not> isSpace c \<Longrightarrow> tight (c # xs) = tight xs"
  by (cases xs) auto

lemma tight_Cons_space:
  "isSpace c \<Longrightarrow> tight (c # xs) = (c = 32 \<and> xs \<noteq> [] \<and> isLetter (hd xs) \<and> tight xs)"
  by (cases xs) auto

lemma tight_last: "tight s \<Longrightarrow> s \<noteq> [] \<Longrightarrow> \<not> isSpace (last s)"
  by (induction s rule: tight.induct) auto







lemma hd_collapse: "s \<noteq> [] \<Longrightarrow> \<not> isSpace (hd s) \<Longrightarrow> hd (replace_ws_runs [32] s) = hd s"
  by (cases s) auto

lemma collapse_Nil_iff: "replace_ws_runs [32] s = [] \<longleftrightarrow> s = []"
  by (cases s) auto

lemma startsOk_hd: "startsOk True s \<Longrightarrow> s \<noteq> [] \<Longrightarrow> \<not> isSpace (hd s) \<Longrightarrow> isLetter (hd s)"
  by (cases s) auto

lemma tight_collapse:
  "startsOk b s \<Longrightarrow> s = [] \<or> \<not> isSpace (last s) \<Longrightarrow> tight (replace_ws_runs [32] s)"
proof (induction "[32 :: nat]" s arbitrary: b rule: replace_ws_runs.induct)
  case 1
  then show ?case by simp
next
  case (2 c cs)
  show ?case
  proof (cases "isSpace c")
    case True
    let ?d = "dropWhile isSpace cs"
    have cs: "cs \<noteq> []" using "2.prems" True by auto
    have l: "\<not> isSpace (last cs)" using "2.prems" cs by simp
    have d: "?d \<noteq> []"
    proof
      assume "?d = []"
      then have "\<forall>x \<in> set cs. isSpace x" by (simp add: dropWhile_eq_Nil_conv)
      then show False using l cs last_in_set by blast
    qed
    have hd: "\<not> isSpace (hd ?d)" using d by (rule hd_dropWhile)
    have so: "startsOk True ?d" using "2.prems" True by (simp add: startsOk_dropWhile)
    have ld: "\<not> isSpace (last ?d)" using l d by (simp add: last_dropWhile)
    have t: "tight (replace_ws_runs [32] ?d)"
      using "2.hyps"(1) [OF True so] ld by simp
    have "isLetter (hd ?d)" using so d hd by (rule startsOk_hd)
    moreover have "hd (replace_ws_runs [32] ?d) = hd ?d" using d hd by (rule hd_collapse)
    moreover have "replace_ws_runs [32] ?d \<noteq> []" using d by (simp add: collapse_Nil_iff)
    ultimately show ?thesis using True t by (simp add: tight_Cons_space isSpace_32)
  next
    case False
    have so: "startsOk False cs" using "2.prems" False by simp
    have "cs = [] \<or> \<not> isSpace (last cs)" using "2.prems" by auto
    then have "tight (replace_ws_runs [32] cs)" using "2.hyps"(2) [OF False so] by simp
    then show ?thesis using False by (simp add: tight_Cons_nonspace)
  qed
qed

lemma collapse_tight: "tight s \<Longrightarrow> replace_ws_runs [32] s = s"
proof (induction s rule: tight.induct)
  case 1
  then show ?case by simp
next
  case (2 c)
  then show ?case by simp
next
  case (3 c d cs)
  show ?case
  proof (cases "isSpace c")
    case True
    then have "c = 32" "isLetter d" using "3.prems" by auto
    then have "\<not> isSpace d" using space_not_letter by blast
    then show ?thesis using 3 True \<open>c = 32\<close> by simp
  next
    case False
    then show ?thesis using 3 by simp
  qed
qed

lemma tight_strip: "tight s \<Longrightarrow> tight (filter isNameChar s)"
proof (induction s rule: tight.induct)
  case 1
  then show ?case by simp
next
  case (2 c)
  then show ?case by simp
next
  case (3 c d cs)
  have ih: "tight (filter isNameChar (d # cs))" using 3 by simp
  show ?case
  proof (cases "isSpace c")
    case True
    then have c: "c = 32" "isLetter d" using "3.prems" by auto
    have "isNameChar d" using c by (simp add: letter_nameChar)
    then show ?thesis
      using ih True c by (simp add: space_nameChar tight_Cons_space)
  next
    case False
    then show ?thesis using ih by (simp add: tight_Cons_nonspace)
  qed
qed



section \<open>Cleaning a valid name\<close>

lemma cleanName_eq: "cleanName s = trim (filter isNameChar (replace_ws_runs [32] (trim s)))"
  by (simp add: cleanName_def trim_Nil)

lemma hd_filter_keep:
  "xs \<noteq> [] \<Longrightarrow> P (hd xs) \<Longrightarrow> filter P xs \<noteq> [] \<and> hd (filter P xs) = hd xs"
  by (cases xs) auto

lemma valid_trim_facts:
  assumes "isValidName s"
  shows "trim s \<noteq> []" "\<not> isSpace (hd (trim s))" "\<not> isSpace (last (trim s))"
    "isLetter (hd (trim s))" "startsOk True (trim s)"
proof -
  have l: "2 \<le> length (trim s)" and so: "startsOk True (trim s)"
    using assms by (simp_all add: isValidName_iff)
  show ne: "trim s \<noteq> []" using l by auto
  show h: "\<not> isSpace (hd (trim s))" using trim_ends [OF ne] by simp
  show "\<not> isSpace (last (trim s))" using trim_ends [OF ne] by simp
  show "isLetter (hd (trim s))" using so ne h by (rule startsOk_hd)
  show "startsOk True (trim s)" by (rule so)
qed

lemma cleanName_valid:
  assumes v: "isValidName s"
  shows "cleanName s = filter isNameChar (replace_ws_runs [32] (trim s))"
    and "tight (cleanName s)"
    and "cleanName s \<noteq> []"
    and "isLetter (hd (cleanName s))"
proof -
  let ?t = "trim s"
  let ?c = "replace_ws_runs [32] ?t"
  let ?r = "filter isNameChar ?c"
  note f = valid_trim_facts [OF v]
  have tc: "tight ?c" using f(5) f(3) by (simp add: tight_collapse)
  have tr: "tight ?r" using tc by (rule tight_strip)
  have cne: "?c \<noteq> []" using f(1) by (simp add: collapse_Nil_iff)
  have hc: "hd ?c = hd ?t" using f(1) f(2) by (rule hd_collapse)
  have "isNameChar (hd ?c)" using f(4) hc by (simp add: letter_nameChar)
  then have r: "?r \<noteq> [] \<and> hd ?r = hd ?c" using cne by (simp add: hd_filter_keep)
  then have hl: "isLetter (hd ?r)" using hc f(4) by simp
  then have hs: "\<not> isSpace (hd ?r)" by (rule letter_not_space)
  have ls: "\<not> isSpace (last ?r)" using tr r by (simp add: tight_last)
  have "trim ?r = ?r" using r hs ls by (simp add: trim_id)
  then show e: "cleanName s = ?r" by (simp add: cleanName_eq)
  show "tight (cleanName s)" using tr e by simp
  show "cleanName s \<noteq> []" using r e by simp
  show "isLetter (hd (cleanName s))" using hl e by simp
qed

lemma cleanName_fixed:
  assumes "tight r" "r \<noteq> []" "\<not> isSpace (hd r)" "\<forall>c \<in> set r. isNameChar c"
  shows "cleanName r = r"
proof -
  have t: "trim r = r" using assms by (simp add: trim_id tight_last)
  have c: "replace_ws_runs [32] r = r" using assms(1) by (rule collapse_tight)
  have f: "filter isNameChar r = r" using assms(4) by (simp add: filter_id_conv)
  show ?thesis by (simp add: cleanName_eq t c f)
qed

lemma cleanName_nameChars: "c \<in> set (cleanName s) \<Longrightarrow> isNameChar c"
proof -
  assume "c \<in> set (cleanName s)"
  then have "c \<in> set (filter isNameChar (replace_ws_runs [32] (trim s)))"
    using set_trim_subset [of "filter isNameChar (replace_ws_runs [32] (trim s))"]
    unfolding cleanName_eq by blast
  then show ?thesis by simp
qed

lemma cleanName_idem_valid:
  assumes "isValidName s"
  shows "cleanName (cleanName s) = cleanName s"
proof (rule cleanName_fixed)
  show "tight (cleanName s)" using assms by (rule cleanName_valid)
  show "cleanName s \<noteq> []" using assms by (rule cleanName_valid)
  show "\<not> isSpace (hd (cleanName s))"
    using cleanName_valid(4) [OF assms] by (rule letter_not_space)
  show "\<forall>c \<in> set (cleanName s). isNameChar c" using cleanName_nameChars by blast
qed





section \<open>Facts about the extraction of names\<close>








lemma extractNamesFromLine_all_valid: "n \<in> set (extractNamesFromLine l) \<Longrightarrow> isValidName n"
  by (auto simp: extractNamesFromLine_def Let_def split: if_splits)

lemma collectLineNames_all_valid: "n \<in> set (collectLineNames ls []) \<Longrightarrow> isValidName n"
  by (auto simp: collectLineNames_concat dest: extractNamesFromLine_all_valid split: if_splits)



lemma cleanAndValidateNames_eq:
  "cleanAndValidateNames names =
     firstSeen (filter (\<lambda>n. n \<noteq> [] \<and> isValidName n) (map cleanName names))"
  by (simp add: cleanAndValidateNames_def keepFirstIndex_firstSeen)

lemma cleanAndValidateNames_members:
  assumes "e \<in> set (cleanAndValidateNames names)"
  shows "isValidName e" "\<exists>n \<in> set names. e = cleanName n"
  using assms by (auto simp: cleanAndValidateNames_eq set_firstSeen)

lemma extractNamesFromText_members:
  assumes "e \<in> set (extractNamesFromText text)"
  shows "isValidName e" "cleanName e = e"
proof -
  have m: "e \<in> set (cleanAndValidateNames (collectLineNames (textLines text) []))"
    using assms by (simp add: extractNamesFromText_def Let_def split: if_splits)
  show "isValidName e" using m by (rule cleanAndValidateNames_members)
  obtain n where n: "n \<in> set (collectLineNames (textLines text) [])" "e = cleanName n"
    using cleanAndValidateNames_members(2) [OF m] by blast
  have "isValidName n" using n(1) by (rule collectLineNames_all_valid)
  then show "cleanName e = e" using n(2) by (simp add: cleanName_idem_valid)
qed

lemma parseCsvFile_eq:
  "parseCsvFile text =
     (if collectCsvNames (csvLines text) [] = [] then extractNamesFromText text
      else firstSeen (collectCsvNames (csvLines text) []))"
  by (simp add: parseCsvFile_def Let_def spreadSet_firstSeen)

lemma collectCsvNames_members:
  "e \<in> set (collectCsvNames ls []) \<Longrightarrow> \<exists>cell. e \<in> set (extractNamesFromText cell)"
  by (auto simp: collectCsvNames_concat)

lemma parseCsvFile_members:
  assumes "e \<in> set (parseCsvFile text)"
  shows "isValidName e" "cleanName e = e"
proof -
  have "\<exists>cell. e \<in> set (extractNamesFromText cell)"
    using assms collectCsvNames_members [of e "csvLines text"]
    by (auto simp: parseCsvFile_eq set_firstSeen split: if_splits)
  then obtain cell where "e \<in> set (extractNamesFromText cell)" by blast
  then show "isValidName e" "cleanName e = e"
    using extractNamesFromText_members by blast+
qed

section \<open>Strings that the validity test rejects\<close>








section \<open>What cleaning keeps\<close>








section \<open>Centring and clamping\<close>




section \<open>The batch: one entry per name\<close>



section \<open>The progress callback\<close>

text \<open>
  C7 (as amended). With a callback that returns from every call, the callback is called
  once per name, with the 1-based index, the number of names and the name, each time just
  before that name is rendered; the value it returns is never looked at: the result list
  and the state of the generator are those of the run without a callback, and the same
  names are rendered in the same order.
\<close>

theorem progress_callback_only_notifies:
  fixes cb :: "progress \<Rightarrow> 'r callbackResult"
  assumes "\<And>p. \<exists>r. cb p = Returned r"
  shows "generateBulkCertificates (Some cb) g names info w =
           generateBulkCertificates (None :: (progress \<Rightarrow> 'r callbackResult) option)
             g names info w \<and>
         world (bulkRun (Some cb) g names info w) =
           world (bulkRun (None :: (progress \<Rightarrow> 'r callbackResult) option) g names info w) \<and>
         trace (bulkRun (None :: (progress \<Rightarrow> 'r callbackResult) option) g names info w) =
           map GenerateCall names \<and>
         trace (bulkRun (Some cb) g names info w) =
           concat (map (\<lambda>k. [ProgressCall
                               \<lparr>p_current = k + 1, p_total = length names,
                                p_student = names ! k\<rparr>,
                             GenerateCall (names ! k)]) [0..<length names])"
  by (simp add: generateBulkCertificates_def bulkRun_def bulkLoop_None
      bulkLoop_Returned [OF assms])

theorem progress_callback_only_notifies_witness:
  "(\<forall>p :: progress. \<exists>r. Returned () = Returned r) \<and>
   generateBulkCertificates (Some (\<lambda>p. Returned ())) renderAlways
     [str ''A B'', str ''C D''] () () =
   generateBulkCertificates noCallback renderAlways [str ''A B'', str ''C D''] () () \<and>
   trace (bulkRun (Some (\<lambda>p. Returned ())) renderAlways
     [str ''A B'', str ''C D''] () ()) =
   [ProgressCall \<lparr>p_current = 1, p_total = 2, p_student = str ''A B''\<rparr>,
    GenerateCall (str ''A B''),
    ProgressCall \<lparr>p_current = 2, p_total = 2, p_student = str ''C D''\<rparr>,
    GenerateCall (str ''C D'')]"
  using progress_callback_only_notifies [of "\<lambda>p. Returned ()" renderAlways
      "[str ''A B'', str ''C D'']" "()" "()"]
  by (simp add: upt_conv_Cons numeral_2_eq_2 noCallback_def)

text \<open>
  The claim as the specification has it fails in two ways. The callback is called before
  the item is rendered, not after it completes; and a callback that throws changes the
  result: its item is recorded as failed and is not rendered at all.
\<close>

theorem progress_callback_runs_first:
  "trace (bulkRun (Some (\<lambda>p. Returned ())) renderAlways [str ''A B''] () ()) =
     [ProgressCall \<lparr>p_current = 1, p_total = 1, p_student = str ''A B''\<rparr>,
      GenerateCall (str ''A B'')] \<and>
   trace (bulkRun (Some (\<lambda>p. Returned ())) renderAlways [str ''A B''] () ()) \<noteq>
     [GenerateCall (str ''A B''),
      ProgressCall \<lparr>p_current = 1, p_total = 1, p_student = str ''A B''\<rparr>] \<and>
   generateBulkCertificates noCallback renderAlways [str ''A B''] () () =
     [succeeded (str ''A B'') [37, 80, 68, 70]] \<and>
   generateBulkCertificates (Some (\<lambda>p. (Thrown (str ''stop'') :: unit callbackResult)))
       renderAlways [str ''A B''] () () =
     [failed (str ''A B'') (str ''stop'')] \<and>
   trace (bulkRun (Some (\<lambda>p. (Thrown (str ''stop'') :: unit callbackResult)))
       renderAlways [str ''A B''] () ()) =
     [ProgressCall \<lparr>p_current = 1, p_total = 1, p_student = str ''A B''\<rparr>]"
  by (simp add: generateBulkCertificates_def bulkRun_def bulkLoop_unfold1 loopBody_def Let_def
      renderAlways_def noCallback_def)

section \<open>Packaging\<close>

text \<open>
  C6 (as amended). \<open>createZipFile\<close> puts every successful certificate into the archive
  under its file name, in order, and then the summary. The archive has exactly one entry
  for each distinct file name of a successful certificate; where several successes share a
  file name the entry holds the bytes of the last of them; and when the file names of the
  successes are pairwise distinct the archive holds one document per success, in order.
\<close>

theorem createZipFile_last_wins:
  "distinct (map fst (createZipFile now certs)) \<and>
   fst ` set (createZipFile now certs) =
     insert summaryFilename (filename ` set (filter success certs)) \<and>
   map_of (createZipFile now certs) summaryFilename =
     Some (TextEntry (createSummaryText now certs)) \<and>
   (f \<noteq> summaryFilename \<longrightarrow>
      map_of (createZipFile now certs) f =
        (case find (\<lambda>c. filename c = f) (rev (filter success certs)) of
           None \<Rightarrow> None
         | Some c \<Rightarrow> Some (PdfEntry (pdfBytes c)))) \<and>
   (distinct (map filename (filter success certs)) \<and>
    summaryFilename \<notin> filename ` set (filter success certs) \<longrightarrow>
      createZipFile now certs =
        map (\<lambda>c. (filename c, PdfEntry (pdfBytes c))) (filter success certs) @
        [(summaryFilename, TextEntry (createSummaryText now certs))])"
proof -
  let ?S = "filter success certs"
  have a: "distinct (map fst (createZipFile now certs))"
    by (simp add: createZipFile_def Let_def distinct_zipFile distinct_addCertificates)
  have b: "fst ` set (createZipFile now certs) = insert summaryFilename (filename ` set ?S)"
    by (simp add: createZipFile_def Let_def keys_zipFile keys_addCertificates)
  have c: "map_of (createZipFile now certs) summaryFilename =
      Some (TextEntry (createSummaryText now certs))"
    by (simp add: createZipFile_def Let_def map_of_zipFile)
  have d: "f \<noteq> summaryFilename \<longrightarrow>
      map_of (createZipFile now certs) f =
        (case find (\<lambda>c. filename c = f) (rev ?S) of
           None \<Rightarrow> None
         | Some c \<Rightarrow> Some (PdfEntry (pdfBytes c)))"
    by (simp add: createZipFile_def Let_def map_of_zipFile map_of_addCertificates
        split: option.splits)
  have e: "distinct (map filename ?S) \<and> summaryFilename \<notin> filename ` set ?S \<longrightarrow>
      createZipFile now certs =
        map (\<lambda>c. (filename c, PdfEntry (pdfBytes c))) ?S @
        [(summaryFilename, TextEntry (createSummaryText now certs))]"
  proof (intro impI)
    assume h: "distinct (map filename ?S) \<and> summaryFilename \<notin> filename ` set ?S"
    have 1: "addCertificates ?S [] = map (\<lambda>c. (filename c, PdfEntry (pdfBytes c))) ?S"
      using addCertificates_distinct [of ?S "[]"] h by simp
    have 2: "summaryFilename \<notin> fst ` set (map (\<lambda>c. (filename c, PdfEntry (pdfBytes c))) ?S)"
      using h by (auto simp: image_iff)
    show "createZipFile now certs =
        map (\<lambda>c. (filename c, PdfEntry (pdfBytes c))) ?S @
        [(summaryFilename, TextEntry (createSummaryText now certs))]"
      by (simp add: createZipFile_def Let_def 1 zipFile_fresh [OF 2])
  qed
  show ?thesis using a b c d e by blast
qed

theorem createZipFile_last_wins_witness:
  "distinct (map filename (filter success
      [succeeded (str ''A B'') [1], failed (str ''C D'') (str ''forced'')])) \<and>
   summaryFilename \<notin> filename ` set (filter success
      [succeeded (str ''A B'') [1], failed (str ''C D'') (str ''forced'')]) \<and>
   str ''a_b_certificate.pdf'' \<noteq> summaryFilename \<and>
   map_of (createZipFile (str ''now'')
      [succeeded (str ''A B'') [1], failed (str ''C D'') (str ''forced'')])
     (str ''a_b_certificate.pdf'') = Some (PdfEntry (Some [1])) \<and>
   createZipFile (str ''now'')
      [succeeded (str ''A B'') [1], failed (str ''C D'') (str ''forced'')] =
     [(str ''a_b_certificate.pdf'', PdfEntry (Some [1])),
      (summaryFilename, TextEntry (createSummaryText (str ''now'')
         [succeeded (str ''A B'') [1], failed (str ''C D'') (str ''forced'')]))]"
  using createZipFile_last_wins [of "str ''now''"
      "[succeeded (str ''A B'') [1], failed (str ''C D'') (str ''forced'')]"
      "str ''a_b_certificate.pdf''"]
  by (simp add: succeeded_def failed_def createSafeFilename_A_B summaryFilename_def str_inject)

text \<open>
  The claim as the specification has it fails: "A B" and "a b" are both rendered and both
  get the file name \<open>a_b_certificate.pdf\<close>; the archive then has one document, the second,
  and no entry holds the first.
\<close>

theorem createZipFile_overwrites_collision:
  "map success [succeeded (str ''A B'') [1], succeeded (str ''a b'') [2]] = [True, True] \<and>
   map filename [succeeded (str ''A B'') [1], succeeded (str ''a b'') [2]] =
     [str ''a_b_certificate.pdf'', str ''a_b_certificate.pdf''] \<and>
   map fst (createZipFile (str ''now'')
       [succeeded (str ''A B'') [1], succeeded (str ''a b'') [2]]) =
     [str ''a_b_certificate.pdf'', str ''certificate_summary.txt''] \<and>
   map_of (createZipFile (str ''now'')
       [succeeded (str ''A B'') [1], succeeded (str ''a b'') [2]])
     (str ''a_b_certificate.pdf'') = Some (PdfEntry (Some [2]))"
  by (simp add: succeeded_def createSafeFilename_A_B createSafeFilename_a_b createZipFile_def
      Let_def zipFile_def summaryFilename_def str_inject)


section \<open>The CSV scenario\<close>

text \<open>
  C1. The claim: for the CSV text with the header row "Student Name,Grade" and the rows
  "John Smith,K" and "Maria Garcia,K", \<open>parseCsvFile\<close> returns exactly "John Smith" and
  "Maria Garcia". The code returns "Student Name" as well: the cell has two words that
  start with letters, so \<open>isValidName\<close> accepts it, and \<open>isHeaderLine\<close> vetoes a line
  with a header keyword only when the line is no valid name.
\<close>

theorem parseCsvFile_keeps_header_cell:
  "parseCsvFile (str ''Student Name,Grade\<newline>John Smith,K\<newline>Maria Garcia,K'') =
     [str ''Student Name'', str ''John Smith'', str ''Maria Garcia''] \<and>
   parseCsvFile (str ''Student Name,Grade\<newline>John Smith,K\<newline>Maria Garcia,K'') \<noteq>
     [str ''John Smith'', str ''Maria Garcia''] \<and>
   isValidName (str ''Student Name'') \<and>
   \<not> isHeaderLine (str ''Student Name'')"
  by (simp add: parseCsvFile_def Let_def csvLines_roster csvCells_header csvCells_John
      csvCells_Maria text_Student_Name text_John_Smith text_Maria_Garcia text_Grade text_K
      spreadSet_firstSeen firstSeen_def str_inject valid_Student_Name isHeaderLine_valid)

section \<open>Normalisation\<close>




section \<open>Classification is idempotent on valid names\<close>



section \<open>Deduplication\<close>

text \<open>
  C4. For every input text, the list that \<open>extractNamesFromText\<close> returns and the list
  that \<open>parseCsvFile\<close> returns have no entry twice; every entry is its own normalised
  form, so no two entries are equal as normalised strings either; and the entries are the
  candidates in first-seen order, each kept where it occurs first. The lines
  "Maria Garcia", "John Smith", "Maria Garcia" give "Maria Garcia", "John Smith".
\<close>

theorem extraction_deduplicates:
  "distinct (extractNamesFromText text) \<and>
   map cleanName (extractNamesFromText text) = extractNamesFromText text \<and>
   distinct (map cleanName (extractNamesFromText text)) \<and>
   extractNamesFromText text =
     (if text = [] then []
      else firstSeen (filter (\<lambda>n. n \<noteq> [] \<and> isValidName n)
             (map cleanName (collectLineNames (textLines text) [])))) \<and>
   distinct (parseCsvFile text) \<and>
   map cleanName (parseCsvFile text) = parseCsvFile text \<and>
   distinct (map cleanName (parseCsvFile text)) \<and>
   parseCsvFile text =
     (if collectCsvNames (csvLines text) [] = [] then extractNamesFromText text
      else firstSeen (collectCsvNames (csvLines text) [])) \<and>
   extractNamesFromText (str ''Maria Garcia\<newline>John Smith\<newline>Maria Garcia'') =
     [str ''Maria Garcia'', str ''John Smith'']"
proof -
  have e: "extractNamesFromText text =
     (if text = [] then []
      else firstSeen (filter (\<lambda>n. n \<noteq> [] \<and> isValidName n)
             (map cleanName (collectLineNames (textLines text) []))))"
    by (simp add: extractNamesFromText_def Let_def cleanAndValidateNames_eq)
  have d: "distinct (extractNamesFromText text)"
    by (subst e) (simp add: distinct_firstSeen)
  have m: "map cleanName (extractNamesFromText text) = extractNamesFromText text"
    by (rule map_idI) (rule extractNamesFromText_members)
  have d': "distinct (extractNamesFromText t)" for t
    by (simp add: extractNamesFromText_def Let_def cleanAndValidateNames_eq distinct_firstSeen)
  have dp: "distinct (parseCsvFile text)"
    by (simp add: parseCsvFile_eq distinct_firstSeen d')
  have mp: "map cleanName (parseCsvFile text) = parseCsvFile text"
    by (rule map_idI) (rule parseCsvFile_members)
  show ?thesis
    using e d m dp mp parseCsvFile_eq [of "text"] text_three by simp
qed

theorem extraction_deduplicates_witness:
  "distinct (extractNamesFromText (str ''Maria Garcia\<newline>John Smith\<newline>Maria Garcia'')) \<and>
   map cleanName
     (extractNamesFromText (str ''Maria Garcia\<newline>John Smith\<newline>Maria Garcia'')) =
     extractNamesFromText (str ''Maria Garcia\<newline>John Smith\<newline>Maria Garcia'') \<and>
   extractNamesFromText (str ''Maria Garcia\<newline>John Smith\<newline>Maria Garcia'') =
     [str ''Maria Garcia'', str ''John Smith'']"
  using extraction_deduplicates
    [of "str ''Maria Garcia\<newline>John Smith\<newline>Maria Garcia''"]
  by blast

section \<open>Strings that are never names\<close>




section \<open>Detection of the file type\<close>

text \<open>
  C10. The claim: a file whose MIME type is absent or unknown and whose extension is no key
  of the extension map is detected as \<open>text/plain\<close>. The file named
  \<open>roster.constructor\<close> with no MIME type is such a file, yet the look-up
  \<open>extensionMap['constructor']\<close> finds the member that every object inherits, and
  \<open>detectFileType\<close> returns that member instead of \<open>text/plain\<close>. (\<open>parseFile\<close>
  still reads the file as text.)
\<close>

theorem detectFileType_inherited_extension:
  "getProperty supportedFormats [] = Undefined \<and>
   map_of extensionMap (str ''constructor'') = None \<and>
   fileExtension (str ''roster.constructor'') = str ''constructor'' \<and>
   detectFileType \<lparr>file_name = str ''roster.constructor'', file_type = []\<rparr> =
     PrototypeMember (str ''constructor'') \<and>
   detectFileType \<lparr>file_name = str ''roster.constructor'', file_type = []\<rparr> \<noteq>
     MimeType (str ''text/plain'') \<and>
   parseFileDispatch \<lparr>file_name = str ''roster.constructor'', file_type = []\<rparr> =
     RunParser ParseTextFile"
proof -
  have e: "fileExtension (str ''roster.constructor'') = str ''constructor''"
    by (simp add: fileExtension_def toLowerCase_def lowerUnit_def isDot_def str_def)
  have m: "map_of extensionMap (str ''constructor'') = None"
    by (simp add: extensionMap_def str_inject)
  have k: "str ''constructor'' \<in> set objectPrototypeKeys"
    by (simp add: objectPrototypeKeys_def)
  have g: "getProperty extensionMap (str ''constructor'') = Inherited (str ''constructor'')"
    by (simp add: getProperty_def m k)
  have u: "getProperty supportedFormats [] = Undefined"
    by (simp add: getProperty_def supportedFormats_def objectPrototypeKeys_def str_def)
  have d: "detectFileType \<lparr>file_name = str ''roster.constructor'', file_type = []\<rparr> =
     PrototypeMember (str ''constructor'')"
    by (simp add: detectFileType_def e g)
  show ?thesis
    by (simp add: u m e d parseFileDispatch_def)
qed

text \<open>
  Where the MIME type is absent or not found and the look-up of the extension finds nothing
  at all, neither a key of \<open>extensionMap\<close> nor a member of \<open>Object.prototype\<close>,
  \<open>detectFileType\<close> returns \<open>text/plain\<close> and \<open>parseFile\<close> reads the file as text.
\<close>

theorem detectFileType_fallback:
  assumes "file_type file = [] \<or> getProperty supportedFormats (file_type file) = Undefined"
    and "getProperty extensionMap (fileExtension (file_name file)) = Undefined"
  shows "detectFileType file = MimeType (str ''text/plain'') \<and>
         parseFileDispatch file = RunParser ParseTextFile"
proof -
  have d: "detectFileType file = MimeType (str ''text/plain'')"
    using assms by (auto simp: detectFileType_def Let_def)
  have "getProperty supportedFormats (str ''text/plain'') = Own ParseTextFile"
    by (simp add: getProperty_def supportedFormats_def)
  then have "parseFileDispatch file = RunParser ParseTextFile"
    by (simp add: parseFileDispatch_def d)
  with d show ?thesis by simp
qed

theorem detectFileType_fallback_witness:
  "getProperty extensionMap (fileExtension (str ''roster.dat'')) = Undefined \<and>
   detectFileType \<lparr>file_name = str ''roster.dat'', file_type = []\<rparr> =
     MimeType (str ''text/plain'') \<and>
   parseFileDispatch \<lparr>file_name = str ''roster.dat'', file_type = []\<rparr> =
     RunParser ParseTextFile"
proof -
  have e: "fileExtension (str ''roster.dat'') = str ''dat''"
    by (simp add: fileExtension_def toLowerCase_def lowerUnit_def isDot_def str_def)
  have u: "getProperty extensionMap (fileExtension (str ''roster.dat'')) = Undefined"
    by (simp add: e getProperty_def extensionMap_def objectPrototypeKeys_def str_inject)
  show ?thesis
    using detectFileType_fallback [of "\<lparr>file_name = str ''roster.dat'', file_type = []\<rparr>"] u
    by simp
qed

end
